theory Spec2Isabelle
  imports Complex_Main "HOL-Library.AList" "HOL-Library.Sublist"
begin

section \<open>Values exchanged by the weather proxy (src/weather\_app/app.py)\<close>

text \<open>
  The service handles decoded JSON: what \<^verbatim>\<open>request.get_json()\<close> and \<^verbatim>\<open>json.loads\<close>
  return. Python's \<^verbatim>\<open>None\<close> is \<open>JNull\<close>. A dict keeps its insertion order and has one
  binding per key: it is an association list whose first binding of a key is the one
  in effect. A float is a rational or one of the non-finite values that \<^verbatim>\<open>json.loads\<close>
  accepts; the program only tests floats for truth and passes them on.
\<close>

datatype pyfloat = Finite rat | PosInf | NegInf | NaN

datatype json =
    JNull
  | JBool bool
  | JInt int
  | JFloat pyfloat
  | JStr string
  | JArr "json list"
  | JObj "(string \<times> json) list"

text \<open>Python truth value of a decoded JSON value (\<^verbatim>\<open>if x:\<close>, \<^verbatim>\<open>not x\<close>).\<close>

fun truthy :: "json \<Rightarrow> bool" where
  "truthy JNull = False"
| "truthy (JBool b) = b"
| "truthy (JInt i) = (i \<noteq> 0)"
| "truthy (JFloat (Finite r)) = (r \<noteq> 0)"
| "truthy (JFloat _) = True"
| "truthy (JStr s) = (s \<noteq> [])"
| "truthy (JArr xs) = (xs \<noteq> [])"
| "truthy (JObj kvs) = (kvs \<noteq> [])"

text \<open>
  \<^verbatim>\<open>InvalidUsage(message, status_code=None, payload=None)\<close>: the class attribute
  \<^verbatim>\<open>status_code = 400\<close> stays unless a status code is given.
\<close>

record invalid_usage =
  message :: string
  status_code :: int
  payload :: "(string \<times> json) list option"

definition InvalidUsage :: "string \<Rightarrow> int option \<Rightarrow> (string \<times> json) list option \<Rightarrow> invalid_usage" where
  "InvalidUsage m sc p =
     \<lparr>message = m, status_code = (case sc of None \<Rightarrow> 400 | Some c \<Rightarrow> c), payload = p\<rparr>"

text \<open>\<^verbatim>\<open>rv = dict(self.payload or ()); rv["message"] = self.message\<close>\<close>

definition to_dict :: "invalid_usage \<Rightarrow> (string \<times> json) list" where
  "to_dict e =
     AList.update ''message'' (JStr (message e))
       (case payload e of None \<Rightarrow> [] | Some p \<Rightarrow> (if p = [] then [] else p))"

text \<open>
  The exceptions a request can end in: the service's own \<open>InvalidUsage\<close>; an
  \<open>AttributeError\<close> when \<^verbatim>\<open>.get\<close> is called on a value that is not a dict; the
  \<open>JSONDecodeError\<close> of \<^verbatim>\<open>json.loads\<close>; any exception of \<^verbatim>\<open>requests.request\<close>.
\<close>

datatype py_error =
    InvalidUsageError invalid_usage
  | AttributeError
  | JSONDecodeError
  | RequestException

text \<open>\<^verbatim>\<open>d.get(k)\<close>: the value, \<^verbatim>\<open>None\<close> for a missing key; only a dict has the method.\<close>

definition dict_get :: "(string \<times> json) list \<Rightarrow> string \<Rightarrow> json" where
  "dict_get kvs k = (case map_of kvs k of None \<Rightarrow> JNull | Some v \<Rightarrow> v)"

fun py_get :: "json \<Rightarrow> string \<Rightarrow> py_error + json" where
  "py_get (JObj kvs) k = Inr (dict_get kvs k)"
| "py_get _ k = Inl AttributeError"

subsection \<open>The environment: configuration, provider, clock\<close>

text \<open>
  An outbound call is the argument list of \<^verbatim>\<open>requests.request(method, url, params=params)\<close>;
  the provider's answer has a status code and a text.
\<close>

record http_call =
  http_method :: string
  url :: string
  params :: "(string \<times> json) list"

record http_response =
  resp_status :: int
  resp_text :: string

text \<open>
  \<open>API_TOKEN\<close> and \<open>WEATHER_API_KEY\<close> are read from the process environment with
  \<^verbatim>\<open>getenv\<close>, so each may be \<^verbatim>\<open>None\<close>. The provider, the JSON decoder of the standard
  library, the wall clock (\<^verbatim>\<open>datetime.now()\<close>, in microseconds of naive local time; its
  \<open>n\<close>-th reading) and the two formatting functions of \<^verbatim>\<open>datetime\<close> are parameters.
\<close>

record env =
  API_TOKEN :: "string option"
  WEATHER_API_KEY :: "string option"
  provider :: "http_call \<Rightarrow> http_response option"
  json_loads :: "string \<Rightarrow> json option"
  clock :: "nat \<Rightarrow> int"
  isoformat :: "int \<Rightarrow> string"
  timedelta_str :: "int \<Rightarrow> string"

text \<open>What a request leaves behind: the provider calls made and the clock readings taken.\<close>

record world =
  outbound :: "http_call list"
  ticks :: nat

type_synonym 'a io = "world \<Rightarrow> (py_error + 'a) \<times> world"

definition opt_str :: "string option \<Rightarrow> json" where
  "opt_str s = (case s of None \<Rightarrow> JNull | Some t \<Rightarrow> JStr t)"

definition requests_request :: "env \<Rightarrow> string \<Rightarrow> string \<Rightarrow> (string \<times> json) list \<Rightarrow> http_response io" where
  "requests_request e m u ps w =
     (let c = \<lparr>http_method = m, url = u, params = ps\<rparr>
      in (case provider e c of None \<Rightarrow> Inl RequestException | Some r \<Rightarrow> Inr r,
          w\<lparr>outbound := outbound w @ [c]\<rparr>))"

definition loads :: "env \<Rightarrow> string \<Rightarrow> py_error + json" where
  "loads e t = (case json_loads e t of None \<Rightarrow> Inl JSONDecodeError | Some j \<Rightarrow> Inr j)"

definition now :: "env \<Rightarrow> world \<Rightarrow> int \<times> world" where
  "now e w = (clock e (ticks w), w\<lparr>ticks := Suc (ticks w)\<rparr>)"

subsection \<open>Provider client operations\<close>

definition url_base_url :: string where
  "url_base_url = ''http://api.weatherapi.com/v1''"

definition get_current_weather :: "env \<Rightarrow> json \<Rightarrow> json \<Rightarrow> json io" where
  "get_current_weather e q lang w =
     (let url_endpoint = ''current.json'';
          u = url_base_url @ ''/'' @ url_endpoint;
          ps = [(''key'', opt_str (WEATHER_API_KEY e)), (''q'', q)];
          ps = (if truthy lang then AList.update ''lang'' lang ps else ps)
      in case requests_request e ''GET'' u ps w of
           (Inl x, w') \<Rightarrow> (Inl x, w')
         | (Inr response, w') \<Rightarrow> (loads e (resp_text response), w'))"

definition get_weather_forecast :: "env \<Rightarrow> json \<Rightarrow> json \<Rightarrow> json \<Rightarrow> json io" where
  "get_weather_forecast e q days lang w =
     (let url_endpoint = ''forecast.json'';
          u = url_base_url @ ''/'' @ url_endpoint;
          ps = [(''key'', opt_str (WEATHER_API_KEY e)), (''q'', q), (''days'', days)];
          ps = (if truthy lang then AList.update ''lang'' lang ps else ps)
      in case requests_request e ''GET'' u ps w of
           (Inl x, w') \<Rightarrow> (Inl x, w')
         | (Inr response, w') \<Rightarrow> (loads e (resp_text response), w'))"

definition get_weather_history :: "env \<Rightarrow> json \<Rightarrow> json \<Rightarrow> json \<Rightarrow> json \<Rightarrow> json io" where
  "get_weather_history e q dt end_dt lang w =
     (let url_endpoint = ''history.json'';
          u = url_base_url @ ''/'' @ url_endpoint;
          ps = [(''key'', opt_str (WEATHER_API_KEY e)), (''q'', q), (''dt'', dt)];
          ps = (if truthy end_dt then AList.update ''end_dt'' end_dt ps else ps);
          ps = (if truthy lang then AList.update ''lang'' lang ps else ps)
      in case requests_request e ''GET'' u ps w of
           (Inl x, w') \<Rightarrow> (Inl x, w')
         | (Inr response, w') \<Rightarrow> (loads e (resp_text response), w'))"

subsection \<open>The request pipeline\<close>

text \<open>
  A view function takes the decoded body (\<^verbatim>\<open>request.get_json()\<close>, fetched again by every
  layer) and returns a dict. The two decorators wrap a view function.
\<close>

type_synonym view = "json \<Rightarrow> (string \<times> json) list io"

definition authorize_and_validate_request :: "env \<Rightarrow> view \<Rightarrow> view" where
  "authorize_and_validate_request e f json_data w =
     (case py_get json_data ''token'' of
        Inl x \<Rightarrow> (Inl x, w)
      | Inr token \<Rightarrow>
          if token = JNull
          then (Inl (InvalidUsageError (InvalidUsage ''token is required'' (Some 400) None)), w)
          else if token \<noteq> opt_str (API_TOKEN e)
          then (Inl (InvalidUsageError (InvalidUsage ''wrong API token'' (Some 403) None)), w)
          else (case py_get json_data ''weather'' of
                  Inl x \<Rightarrow> (Inl x, w)
                | Inr wp \<Rightarrow>
                    if \<not> truthy wp
                    then (Inl (InvalidUsageError
                            (InvalidUsage ''weather params must be provided'' (Some 400) None)), w)
                    else f json_data w))"

text \<open>\<^verbatim>\<open>response.update(execution_time_params)\<close> stores the three keys in this order.\<close>

definition add_execution_time_params_to_response :: "env \<Rightarrow> view \<Rightarrow> view" where
  "add_execution_time_params_to_response e f json_data w =
     (let (start_dt, w1) = now e w
      in case f json_data w1 of
           (Inl x, w2) \<Rightarrow> (Inl x, w2)
         | (Inr response, w2) \<Rightarrow>
             (let (end_dt, w3) = now e w2
              in (Inr (AList.update ''event_duration'' (JStr (timedelta_str e (end_dt - start_dt)))
                      (AList.update ''event_finished_datetime'' (JStr (isoformat e end_dt))
                      (AList.update ''event_start_datetime'' (JStr (isoformat e start_dt))
                         response))), w3)))"

definition current_weather_endpoint :: "env \<Rightarrow> view" where
  "current_weather_endpoint e json_data w =
     (case py_get json_data ''weather'' of
        Inl x \<Rightarrow> (Inl x, w)
      | Inr weather_params \<Rightarrow>
     (case py_get weather_params ''q'' of
        Inl x \<Rightarrow> (Inl x, w)
      | Inr q \<Rightarrow>
     (case py_get weather_params ''lang'' of
        Inl x \<Rightarrow> (Inl x, w)
      | Inr lang \<Rightarrow>
     (case get_current_weather e q lang w of
        (Inl x, w') \<Rightarrow> (Inl x, w')
      | (Inr weather, w') \<Rightarrow> (Inr [(''weather'', weather)], w')))))"

definition weather_forecast_endpoint :: "env \<Rightarrow> view" where
  "weather_forecast_endpoint e json_data w =
     (case py_get json_data ''weather'' of
        Inl x \<Rightarrow> (Inl x, w)
      | Inr weather_params \<Rightarrow>
     (case py_get weather_params ''q'' of
        Inl x \<Rightarrow> (Inl x, w)
      | Inr q \<Rightarrow>
     (case py_get weather_params ''days'' of
        Inl x \<Rightarrow> (Inl x, w)
      | Inr days \<Rightarrow>
     (case py_get weather_params ''lang'' of
        Inl x \<Rightarrow> (Inl x, w)
      | Inr lang \<Rightarrow>
     (case get_weather_forecast e q days lang w of
        (Inl x, w') \<Rightarrow> (Inl x, w')
      | (Inr weather, w') \<Rightarrow> (Inr [(''weather'', weather)], w'))))))"

definition weather_history_endpoint :: "env \<Rightarrow> view" where
  "weather_history_endpoint e json_data w =
     (case py_get json_data ''weather'' of
        Inl x \<Rightarrow> (Inl x, w)
      | Inr weather_params \<Rightarrow>
     (case py_get weather_params ''q'' of
        Inl x \<Rightarrow> (Inl x, w)
      | Inr q \<Rightarrow>
     (case py_get weather_params ''dt'' of
        Inl x \<Rightarrow> (Inl x, w)
      | Inr dt \<Rightarrow>
     (case py_get weather_params ''end_dt'' of
        Inl x \<Rightarrow> (Inl x, w)
      | Inr end_dt \<Rightarrow>
     (case py_get weather_params ''lang'' of
        Inl x \<Rightarrow> (Inl x, w)
      | Inr lang \<Rightarrow>
     (case get_weather_history e q dt end_dt lang w of
        (Inl x, w') \<Rightarrow> (Inl x, w')
      | (Inr weather, w') \<Rightarrow> (Inr [(''weather'', weather)], w')))))))"

subsection \<open>Routing and error handling\<close>

text \<open>
  What the caller receives: a JSON body with a status code, or the framework's generic
  500 page when an exception has no registered handler.
\<close>

datatype reply = JsonReply int json | ServerFault

datatype endpoint = Current | Forecast | History

definition handle_invalid_usage :: "invalid_usage \<Rightarrow> reply" where
  "handle_invalid_usage error = JsonReply (status_code error) (JObj (to_dict error))"

text \<open>
  Each route is \<^verbatim>\<open>authorize_and_validate_request\<close> around
  \<^verbatim>\<open>add_execution_time_params_to_response\<close> around the view.
\<close>

definition route :: "env \<Rightarrow> endpoint \<Rightarrow> view" where
  "route e ep =
     authorize_and_validate_request e (add_execution_time_params_to_response e
       (case ep of
          Current \<Rightarrow> current_weather_endpoint e
        | Forecast \<Rightarrow> weather_forecast_endpoint e
        | History \<Rightarrow> weather_history_endpoint e))"

text \<open>
  A POST to a weather route: a returned dict is sent as JSON with status 200; an
  \<open>InvalidUsage\<close> goes to its registered handler; any other exception is a server fault.
\<close>

definition post :: "env \<Rightarrow> endpoint \<Rightarrow> json \<Rightarrow> world \<Rightarrow> reply \<times> world" where
  "post e ep body w =
     (case route e ep body w of
        (Inr d, w') \<Rightarrow> (JsonReply 200 (JObj d), w')
      | (Inl (InvalidUsageError err), w') \<Rightarrow> (handle_invalid_usage err, w')
      | (Inl _, w') \<Rightarrow> (ServerFault, w'))"

text \<open>
  The provider lookup that the view of an endpoint performs on the \<^verbatim>\<open>weather\<close> dict of the
  body (shown equal to the three views in \<open>view_eq\<close>).
\<close>

definition lookup :: "env \<Rightarrow> endpoint \<Rightarrow> (string \<times> json) list \<Rightarrow> json io" where
  "lookup e ep wp =
     (case ep of
        Current \<Rightarrow> get_current_weather e (dict_get wp ''q'') (dict_get wp ''lang'')
      | Forecast \<Rightarrow> get_weather_forecast e (dict_get wp ''q'') (dict_get wp ''days'') (dict_get wp ''lang'')
      | History \<Rightarrow> get_weather_history e (dict_get wp ''q'') (dict_get wp ''dt'')
                     (dict_get wp ''end_dt'') (dict_get wp ''lang''))"

subsection \<open>A sample environment\<close>

text \<open>
  A concrete environment for evaluating the service: the configuration, the provider and
  the clock are given; the decoder knows two texts; the formatters print the count of
  microseconds in decimal.
\<close>

fun dec :: "nat \<Rightarrow> string" where
  "dec n = (if n < 10 then [''0123456789'' ! n]
            else dec (n div 10) @ [''0123456789'' ! (n mod 10)])"

declare dec.simps [simp del]

definition sample_env :: "string option \<Rightarrow> string option \<Rightarrow> (http_call \<Rightarrow> http_response option) \<Rightarrow> (nat \<Rightarrow> int) \<Rightarrow> env" where
  "sample_env tok key prov clk =
     \<lparr>API_TOKEN = tok, WEATHER_API_KEY = key, provider = prov,
      json_loads = (\<lambda>t. if t = ''null'' then Some JNull
                         else if t = ''{}'' then Some (JObj []) else None),
      clock = clk,
      isoformat = (\<lambda>t. dec (nat t)),
      timedelta_str = (\<lambda>d. if d < 0 then ''-'' @ dec (nat (- d)) else dec (nat d))\<rparr>"

definition w0 :: world where
  "w0 = \<lparr>outbound = [], ticks = 0\<rparr>"

section \<open>The dataset builder (src/isw\_data\_parser/dataset.py)\<close>

subsection \<open>Files and paths\<close>

definition LF :: char where "LF = CHR 0x0A"
definition CR :: char where "CR = CHR 0x0D"

datatype io_error = OSError | UnicodeDecodeError | FileExistsError | IsADirectoryError

text \<open>
  A file is the sequence of characters its bytes decode to, or the error that opening,
  reading or decoding it raises. A directory lists its files and its subdirectories, each
  under its name, in the order the operating system enumerates them.
\<close>

type_synonym file_data = "io_error + string"

datatype tree = Dir "(string \<times> file_data) list" "(string \<times> tree) list"

text \<open>
  \<^verbatim>\<open>open(path, encoding='utf-8')\<close> is called without a \<^verbatim>\<open>newline\<close> argument: the text layer
  translates the line endings \<^verbatim>\<open>\r\n\<close> and \<^verbatim>\<open>\r\<close> to \<^verbatim>\<open>\n\<close> before \<^verbatim>\<open>read()\<close> returns.
\<close>

fun universal_newlines :: "string \<Rightarrow> string" where
  "universal_newlines [] = []"
| "universal_newlines [c] = [if c = CR then LF else c]"
| "universal_newlines (c # d # cs) =
     (if c = CR \<and> d = LF then LF # universal_newlines cs
      else if c = CR then LF # universal_newlines (d # cs)
      else c # universal_newlines (d # cs))"

definition open_read :: "file_data \<Rightarrow> io_error + string" where
  "open_read f = (case f of Inl e \<Rightarrow> Inl e | Inr s \<Rightarrow> Inr (universal_newlines s))"

text \<open>\<^verbatim>\<open>re.sub('\n', ' ', s)\<close>\<close>

definition re_sub_newline :: "string \<Rightarrow> string" where
  "re_sub_newline s = map (\<lambda>c. if c = LF then CHR '' '' else c) s"

text \<open>\<^verbatim>\<open>s.rfind(c)\<close>: the last index of \<open>c\<close>, or \<open>-1\<close>.\<close>

definition rfind :: "string \<Rightarrow> char \<Rightarrow> int" where
  "rfind s c = (case filter (\<lambda>i. s ! i = c) (rev [0..<length s]) of [] \<Rightarrow> -1 | i # _ \<Rightarrow> int i)"

text \<open>
  \<^verbatim>\<open>os.path.splitext\<close> (\<^verbatim>\<open>genericpath._splitext\<close> with separator \<^verbatim>\<open>/\<close>): the extension
  starts at the last dot of the last component, unless only dots precede that dot there.
  The loop looks for a character that is not a dot between \<open>filenameIndex\<close> and \<open>dotIndex\<close>.
\<close>

function splitext_loop :: "string \<Rightarrow> nat \<Rightarrow> nat \<Rightarrow> bool" where
  "splitext_loop p filenameIndex dotIndex =
     (if filenameIndex < dotIndex
      then (if p ! filenameIndex \<noteq> CHR ''.'' then True
            else splitext_loop p (Suc filenameIndex) dotIndex)
      else False)"
  by pat_completeness auto
termination
  by (relation "measure (\<lambda>(p, i, d). d - i)") auto

declare splitext_loop.simps [simp del]

definition splitext :: "string \<Rightarrow> string \<times> string" where
  "splitext p =
     (let sepIndex = rfind p CHR ''/'';
          dotIndex = rfind p CHR ''.''
      in if dotIndex > sepIndex \<and> splitext_loop p (nat (sepIndex + 1)) (nat dotIndex)
         then (take (nat dotIndex) p, drop (nat dotIndex) p)
         else (p, []))"

text \<open>\<^verbatim>\<open>os.path.join(a, b)\<close> for a relative \<open>b\<close>.\<close>

definition path_join :: "string \<Rightarrow> string \<Rightarrow> string" where
  "path_join a b = (if a = [] \<or> last a = CHR ''/'' then a @ b else a @ ''/'' @ b)"

text \<open>
  \<^verbatim>\<open>os.walk(top)\<close>, top-down: the directory itself, then each subdirectory in turn.
\<close>

fun os_walk :: "string \<Rightarrow> tree \<Rightarrow> (string \<times> string list \<times> (string \<times> file_data) list) list" where
  "os_walk topdir (Dir fs ds) =
     (topdir, map fst ds, fs) # concat (map (\<lambda>d. os_walk (path_join topdir (fst d)) (snd d)) ds)"

subsection \<open>Reading the files\<close>

text \<open>
  The inner loop: the files of one directory, appended to the records so far. A file's data
  stands in the tree beside its name, so the path \<^verbatim>\<open>os.path.join(subdir, file)\<close> that is
  opened does not appear.
\<close>

fun files_loop :: "(string \<times> file_data) list \<Rightarrow> (string \<times> string) list \<Rightarrow> io_error + (string \<times> string) list" where
  "files_loop [] files_data_by_date = Inr files_data_by_date"
| "files_loop ((file, f) # rest) files_data_by_date =
     (let (name, _) = splitext file
      in case open_read f of
           Inl e \<Rightarrow> Inl e
         | Inr s \<Rightarrow> files_loop rest (files_data_by_date @ [(name, re_sub_newline s)]))"

text \<open>The outer loop over what \<open>os_walk\<close> yields.\<close>

fun walk_loop :: "(string \<times> string list \<times> (string \<times> file_data) list) list \<Rightarrow> (string \<times> string) list \<Rightarrow> io_error + (string \<times> string) list" where
  "walk_loop [] files_data_by_date = Inr files_data_by_date"
| "walk_loop ((subdir, dirs, files) # rest) files_data_by_date =
     (case files_loop files files_data_by_date of
        Inl e \<Rightarrow> Inl e
      | Inr acc \<Rightarrow> walk_loop rest acc)"

definition read_data_from_files :: "string \<Rightarrow> tree \<Rightarrow> io_error + (string \<times> string) list" where
  "read_data_from_files root_folder t = walk_loop (os_walk root_folder t) []"

subsection \<open>Writing the CSV file\<close>

definition QUOTE :: char where "QUOTE = CHR 0x22"
definition COMMA :: char where "COMMA = CHR '',''"

text \<open>
  \<^verbatim>\<open>csv.writer(f)\<close> with the default dialect: delimiter comma, quote character \<^verbatim>\<open>"\<close>
  doubled inside a quoted field, minimal quoting, line terminator \<^verbatim>\<open>\r\n\<close>. A field is
  quoted when it holds the delimiter, the quote character or a character of the line
  terminator; a row that is one empty field is written as \<^verbatim>\<open>""\<close>.
\<close>

definition needs_quote :: "string \<Rightarrow> bool" where
  "needs_quote s = list_ex (\<lambda>c. c = COMMA \<or> c = QUOTE \<or> c = CR \<or> c = LF) s"

definition quote_field :: "string \<Rightarrow> string" where
  "quote_field s =
     (if needs_quote s
      then QUOTE # concat (map (\<lambda>c. if c = QUOTE then [QUOTE, QUOTE] else [c]) s) @ [QUOTE]
      else s)"

fun join_fields :: "string list \<Rightarrow> string" where
  "join_fields [] = []"
| "join_fields [s] = quote_field s"
| "join_fields (s # t # ss) = quote_field s @ COMMA # join_fields (t # ss)"

definition writerow :: "string list \<Rightarrow> string" where
  "writerow row = (if row = [[]] then [QUOTE, QUOTE] else join_fields row) @ [CR, LF]"

definition writerows :: "(string \<times> string) list \<Rightarrow> string" where
  "writerows key_value_list = concat (map (\<lambda>(k, v). writerow [k, v]) key_value_list)"

text \<open>
  The output side of the file system: the directories and the regular files with their
  contents, by path.
\<close>

record filesystem =
  fs_dirs :: "string set"
  fs_files :: "string \<rightharpoonup> string"

text \<open>\<^verbatim>\<open>os.path.dirname\<close> (posixpath).\<close>

definition dirname :: "string \<Rightarrow> string" where
  "dirname p =
     (let i = nat (rfind p CHR ''/'' + 1);
          head = take i p
      in if head \<noteq> [] \<and> head \<noteq> replicate (length head) CHR ''/''
         then rev (dropWhile (\<lambda>c. c = CHR ''/'') (rev head))
         else head)"

text \<open>
  \<^verbatim>\<open>os.makedirs(name, exist_ok=True)\<close> for a name of one component: an existing directory
  is accepted, a regular file of that name is an error.
\<close>

definition makedirs :: "string \<Rightarrow> filesystem \<Rightarrow> io_error + filesystem" where
  "makedirs name fs =
     (if name \<in> dom (fs_files fs) then Inl FileExistsError
      else Inr (fs\<lparr>fs_dirs := insert name (fs_dirs fs)\<rparr>))"

text \<open>\<^verbatim>\<open>open(path, 'w', newline='')\<close> creates the file or empties it; nothing is translated.\<close>

definition open_w :: "string \<Rightarrow> filesystem \<Rightarrow> io_error + filesystem" where
  "open_w path fs =
     (if path \<in> fs_dirs fs then Inl IsADirectoryError
      else Inr (fs\<lparr>fs_files := (fs_files fs)(path \<mapsto> [])\<rparr>))"

definition file_write :: "string \<Rightarrow> string \<Rightarrow> filesystem \<Rightarrow> filesystem" where
  "file_write path s fs =
     fs\<lparr>fs_files := (fs_files fs)(path \<mapsto> (case fs_files fs path of None \<Rightarrow> [] | Some old \<Rightarrow> old) @ s)\<rparr>"

definition create_csv_dataset :: "(string \<times> string) list \<Rightarrow> filesystem \<Rightarrow> io_error + filesystem" where
  "create_csv_dataset key_value_list fs =
     (let dataset_path = ''datasets/dataset.csv''
      in case makedirs (dirname dataset_path) fs of
           Inl e \<Rightarrow> Inl e
         | Inr fs1 \<Rightarrow>
             (case open_w dataset_path fs1 of
                Inl e \<Rightarrow> Inl e
              | Inr fs2 \<Rightarrow>
                  Inr (file_write dataset_path (writerows key_value_list)
                        (file_write dataset_path (writerow [''Date'', ''Text'']) fs2))))"

definition main :: "tree \<Rightarrow> filesystem \<Rightarrow> io_error + filesystem" where
  "main t fs =
     (case read_data_from_files ''row_data'' t of
        Inl e \<Rightarrow> Inl e
      | Inr recs \<Rightarrow> create_csv_dataset recs fs)"

text \<open>Running the builder \<open>n\<close> times in a row on the same input tree.\<close>

fun runs :: "nat \<Rightarrow> tree \<Rightarrow> filesystem \<Rightarrow> io_error + filesystem" where
  "runs 0 t fs = Inr fs"
| "runs (Suc n) t fs = (case main t fs of Inl e \<Rightarrow> Inl e | Inr fs' \<Rightarrow> runs n t fs')"

subsection \<open>A CSV reader\<close>

text \<open>
  A reader for the same dialect, after the state machine of \<^verbatim>\<open>csv.reader\<close>: fields are
  separated by commas and records by \<^verbatim>\<open>\r\n\<close>, \<^verbatim>\<open>\n\<close> or \<^verbatim>\<open>\r\<close>; a field that starts
  with a quote runs to the next single quote, two quotes standing for one.
\<close>

datatype parse_state =
  START_RECORD | START_FIELD | IN_FIELD | IN_QUOTED_FIELD | QUOTE_IN_QUOTED_FIELD | EAT_CRNL

record reader =
  state :: parse_state
  cur_field :: string
  cur_fields :: "string list"
  rows :: "string list list"

definition add_char :: "char \<Rightarrow> reader \<Rightarrow> reader" where
  "add_char c r = r\<lparr>cur_field := cur_field r @ [c]\<rparr>"

definition save_field :: "reader \<Rightarrow> reader" where
  "save_field r = r\<lparr>cur_fields := cur_fields r @ [cur_field r], cur_field := []\<rparr>"

definition end_record :: "char \<Rightarrow> reader \<Rightarrow> reader" where
  "end_record c r =
     r\<lparr>rows := rows r @ [cur_fields r], cur_fields := [],
       state := (if c = CR then EAT_CRNL else START_RECORD)\<rparr>"

definition start_field :: "char \<Rightarrow> reader \<Rightarrow> reader" where
  "start_field c r =
     (if c = LF \<or> c = CR then end_record c (save_field r)
      else if c = QUOTE then r\<lparr>state := IN_QUOTED_FIELD\<rparr>
      else if c = COMMA then (save_field r)\<lparr>state := START_FIELD\<rparr>
      else (add_char c r)\<lparr>state := IN_FIELD\<rparr>)"

definition start_record :: "char \<Rightarrow> reader \<Rightarrow> reader" where
  "start_record c r = (if c = LF \<or> c = CR then end_record c r else start_field c r)"

fun parse_process_char :: "reader \<Rightarrow> char \<Rightarrow> reader" where
  "parse_process_char r c =
     (case state r of
        START_RECORD \<Rightarrow> start_record c r
      | EAT_CRNL \<Rightarrow> (if c = LF then r\<lparr>state := START_RECORD\<rparr> else start_record c r)
      | START_FIELD \<Rightarrow> start_field c r
      | IN_FIELD \<Rightarrow>
          (if c = LF \<or> c = CR then end_record c (save_field r)
           else if c = COMMA then (save_field r)\<lparr>state := START_FIELD\<rparr>
           else add_char c r)
      | IN_QUOTED_FIELD \<Rightarrow>
          (if c = QUOTE then r\<lparr>state := QUOTE_IN_QUOTED_FIELD\<rparr> else add_char c r)
      | QUOTE_IN_QUOTED_FIELD \<Rightarrow>
          (if c = QUOTE then (add_char c r)\<lparr>state := IN_QUOTED_FIELD\<rparr>
           else if c = COMMA then (save_field r)\<lparr>state := START_FIELD\<rparr>
           else if c = LF \<or> c = CR then end_record c (save_field r)
           else (add_char c r)\<lparr>state := IN_FIELD\<rparr>))"

text \<open>At the end of the text a record that has begun is completed.\<close>

definition finish :: "reader \<Rightarrow> string list list" where
  "finish r =
     (if state r = START_RECORD \<or> state r = EAT_CRNL then rows r
      else rows r @ [cur_fields r @ [cur_field r]])"

definition csv_reader :: "string \<Rightarrow> string list list" where
  "csv_reader s =
     finish (foldl parse_process_char
       \<lparr>state = START_RECORD, cur_field = [], cur_fields = [], rows = []\<rparr> s)"

subsection \<open>Notions for stating the properties\<close>

text \<open>The files of a tree in the order \<open>os_walk\<close> yields them.\<close>

definition walk_files :: "string \<Rightarrow> tree \<Rightarrow> (string \<times> file_data) list" where
  "walk_files root_folder t = concat (map (\<lambda>(subdir, dirs, files). files) (os_walk root_folder t))"

text \<open>
  The record that belongs to a file: the root of \<open>splitext\<close> of its name, and its text as
  \<^verbatim>\<open>read()\<close> returns it with every \<^verbatim>\<open>\n\<close> replaced by a space.
\<close>

definition is_record_of :: "string \<times> file_data \<Rightarrow> string \<times> string \<Rightarrow> bool" where
  "is_record_of x r =
     (fst r = fst (splitext (fst x))
      \<and> (case snd x of Inl e \<Rightarrow> False
          | Inr s \<Rightarrow> snd r = re_sub_newline (universal_newlines s)))"

text \<open>A sample input tree, its records, and the output directory before and after a run.\<close>

definition sample_tree :: tree where
  "sample_tree =
     Dir [(''a.txt'', Inr (''hello'' @ [LF] @ ''world''))]
         [(''sub'', Dir [(''b.txt'', Inr (''say '' @ [QUOTE] @ ''hi'' @ [QUOTE] @ '', ok'')),
                         (''a.md'', Inr ''y'')] [])]"

definition sample_records :: "(string \<times> string) list" where
  "sample_records =
     [(''a'', ''hello world''), (''b'', ''say '' @ [QUOTE] @ ''hi'' @ [QUOTE] @ '', ok''), (''a'', ''y'')]"

text \<open>The text that \<open>create_csv_dataset\<close> writes: the header row, then the records.\<close>

definition dataset_text :: "(string \<times> string) list \<Rightarrow> string" where
  "dataset_text key_value_list = writerow [''Date'', ''Text''] @ writerows key_value_list"

definition fs_old :: filesystem where
  "fs_old = \<lparr>fs_dirs = {''datasets''},
             fs_files = [''datasets/dataset.csv'' \<mapsto> ''Date,Text'' @ [CR, LF] @ ''z,old'' @ [CR, LF]]\<rparr>"

definition fs_new :: filesystem where
  "fs_new = \<lparr>fs_dirs = {''datasets''},
             fs_files = [''datasets/dataset.csv'' \<mapsto> dataset_text sample_records]\<rparr>"



section \<open>Properties of the weather proxy\<close>

lemma reply_of_invalid_usage:
  "handle_invalid_usage (InvalidUsage m (Some c) None) = JsonReply c (JObj [(''message'', JStr m)])"
  by (simp add: handle_invalid_usage_def InvalidUsage_def to_dict_def)

lemma sample_env_sel [simp]:
  "API_TOKEN (sample_env tok key prov clk) = tok"
  "WEATHER_API_KEY (sample_env tok key prov clk) = key"
  "provider (sample_env tok key prov clk) = prov"
  "clock (sample_env tok key prov clk) = clk"
  "json_loads (sample_env tok key prov clk) ''null'' = Some JNull"
  "json_loads (sample_env tok key prov clk) ''{}'' = Some (JObj [])"
  "json_loads (sample_env tok key prov clk) ''<html>'' = None"
  "isoformat (sample_env tok key prov clk) x = dec (nat x)"
  "timedelta_str (sample_env tok key prov clk) d =
     (if d < 0 then ''-'' @ dec (nat (- d)) else dec (nat d))"
  by (simp_all add: sample_env_def)

lemma current_world:
  "snd (get_current_weather e q lang w) =
     w\<lparr>outbound := outbound w @
        [\<lparr>http_method = ''GET'', url = ''http://api.weatherapi.com/v1/current.json'',
          params = [(''key'', opt_str (WEATHER_API_KEY e)), (''q'', q)]
                   @ (if truthy lang then [(''lang'', lang)] else [])\<rparr>]\<rparr>"
  by (simp add: get_current_weather_def requests_request_def url_base_url_def Let_def split: sum.splits)

lemma forecast_world:
  "snd (get_weather_forecast e q days lang w) =
     w\<lparr>outbound := outbound w @
        [\<lparr>http_method = ''GET'', url = ''http://api.weatherapi.com/v1/forecast.json'',
          params = [(''key'', opt_str (WEATHER_API_KEY e)), (''q'', q), (''days'', days)]
                   @ (if truthy lang then [(''lang'', lang)] else [])\<rparr>]\<rparr>"
  by (simp add: get_weather_forecast_def requests_request_def url_base_url_def Let_def split: sum.splits)

lemma history_world:
  "snd (get_weather_history e q dt end_dt lang w) =
     w\<lparr>outbound := outbound w @
        [\<lparr>http_method = ''GET'', url = ''http://api.weatherapi.com/v1/history.json'',
          params = [(''key'', opt_str (WEATHER_API_KEY e)), (''q'', q), (''dt'', dt)]
                   @ (if truthy end_dt then [(''end_dt'', end_dt)] else [])
                   @ (if truthy lang then [(''lang'', lang)] else [])\<rparr>]\<rparr>"
  by (simp add: get_weather_history_def requests_request_def url_base_url_def Let_def split: sum.splits)

lemma lookup_result:
  "fst (get_current_weather e q lang w) =
     (case provider e (last (outbound (snd (get_current_weather e q lang w)))) of
        None \<Rightarrow> Inl RequestException | Some r \<Rightarrow> loads e (resp_text r))"
  "fst (get_weather_forecast e q days lang w) =
     (case provider e (last (outbound (snd (get_weather_forecast e q days lang w)))) of
        None \<Rightarrow> Inl RequestException | Some r \<Rightarrow> loads e (resp_text r))"
  "fst (get_weather_history e q dt end_dt lang w) =
     (case provider e (last (outbound (snd (get_weather_history e q dt end_dt lang w)))) of
        None \<Rightarrow> Inl RequestException | Some r \<Rightarrow> loads e (resp_text r))"
  by (simp_all add: get_current_weather_def get_weather_forecast_def get_weather_history_def
      requests_request_def Let_def split: sum.splits option.splits)

lemma lookup_world:
  "\<exists>c. snd (lookup e ep wp w) = w\<lparr>outbound := outbound w @ [c]\<rparr>"
  by (cases ep) (auto simp: lookup_def current_world forecast_world history_world)

lemma lookup_fst:
  "fst (lookup e ep wp w) =
     (case provider e (last (outbound (snd (lookup e ep wp w)))) of
        None \<Rightarrow> Inl RequestException | Some r \<Rightarrow> loads e (resp_text r))"
  by (cases ep) (simp_all add: lookup_def lookup_result)

lemma view_eq:
  assumes "map_of kvs ''weather'' = Some (JObj wp)"
  shows "(case ep of Current \<Rightarrow> current_weather_endpoint e
          | Forecast \<Rightarrow> weather_forecast_endpoint e
          | History \<Rightarrow> weather_history_endpoint e) (JObj kvs) w =
         (case lookup e ep wp w of
            (Inl x, w') \<Rightarrow> (Inl x, w')
          | (Inr weather, w') \<Rightarrow> (Inr [(''weather'', weather)], w'))"
  using assms
  by (cases ep) (simp_all add: lookup_def current_weather_endpoint_def
      weather_forecast_endpoint_def weather_history_endpoint_def dict_get_def)

lemma route_authorized:
  assumes "map_of kvs ''token'' = Some (JStr t)" "API_TOKEN e = Some t"
    "map_of kvs ''weather'' = Some (JObj wp)" "wp \<noteq> []"
  shows "route e ep (JObj kvs) w =
     (case lookup e ep wp (w\<lparr>ticks := Suc (ticks w)\<rparr>) of
        (Inl x, w2) \<Rightarrow> (Inl x, w2)
      | (Inr weather, w2) \<Rightarrow>
          (Inr [(''weather'', weather),
                (''event_start_datetime'', JStr (isoformat e (clock e (ticks w)))),
                (''event_finished_datetime'', JStr (isoformat e (clock e (ticks w2)))),
                (''event_duration'', JStr (timedelta_str e (clock e (ticks w2) - clock e (ticks w))))],
           w2\<lparr>ticks := Suc (ticks w2)\<rparr>))"
  using assms
  by (simp add: route_def authorize_and_validate_request_def dict_get_def opt_str_def
      add_execution_time_params_to_response_def now_def view_eq [OF assms(3)]
      split: prod.splits sum.splits)

lemma lookup_ticks: "ticks (snd (lookup e ep wp w)) = ticks w"
  using lookup_world [of e ep wp w] by auto

lemma lookup_outbound: "\<exists>c. outbound (snd (lookup e ep wp w)) = outbound w @ [c]"
  using lookup_world [of e ep wp w] by auto

lemma route_authorized_outbound:
  assumes "map_of kvs ''token'' = Some (JStr t)" "API_TOKEN e = Some t"
    "map_of kvs ''weather'' = Some (JObj wp)" "wp \<noteq> []"
  shows "outbound (snd (route e ep (JObj kvs) w)) = outbound (snd (lookup e ep wp w))"
proof -
  let ?w1 = "w\<lparr>ticks := Suc (ticks w)\<rparr>"
  obtain r w2 where l: "lookup e ep wp ?w1 = (r, w2)"
    by (cases "lookup e ep wp ?w1")
  have "outbound (snd (lookup e ep wp ?w1)) = outbound (snd (lookup e ep wp w))"
    by (cases ep) (simp_all add: lookup_def current_world forecast_world history_world)
  then have "outbound w2 = outbound (snd (lookup e ep wp w))"
    by (simp add: l)
  then show ?thesis
    by (cases r) (simp_all add: route_authorized [OF assms] l)
qed

lemma post_outbound: "outbound (snd (post e ep body w)) = outbound (snd (route e ep body w))"
  by (simp add: post_def split: prod.splits sum.splits py_error.splits)

lemma lookup_provider_ticks:
  "provider e (last (outbound (snd (lookup e ep wp (w\<lparr>ticks := n\<rparr>))))) =
   provider e (last (outbound (snd (lookup e ep wp w))))"
  by (cases ep) (simp_all add: lookup_def current_world forecast_world history_world)

lemma route_authorized_result:
  assumes "map_of kvs ''token'' = Some (JStr t)" "API_TOKEN e = Some t"
    "map_of kvs ''weather'' = Some (JObj wp)" "wp \<noteq> []"
  shows "fst (route e ep (JObj kvs) w) =
     (case provider e (last (outbound (snd (route e ep (JObj kvs) w)))) of
        None \<Rightarrow> Inl RequestException
      | Some r \<Rightarrow>
         (case json_loads e (resp_text r) of
            None \<Rightarrow> Inl JSONDecodeError
          | Some j \<Rightarrow>
              Inr [(''weather'', j),
                (''event_start_datetime'', JStr (isoformat e (clock e (ticks w)))),
                (''event_finished_datetime'', JStr (isoformat e (clock e (Suc (ticks w))))),
                (''event_duration'',
                   JStr (timedelta_str e (clock e (Suc (ticks w)) - clock e (ticks w))))]))"
proof -
  let ?w1 = "w\<lparr>ticks := Suc (ticks w)\<rparr>"
  obtain r w2 where l: "lookup e ep wp ?w1 = (r, w2)"
    by (cases "lookup e ep wp ?w1")
  have t: "ticks w2 = Suc (ticks w)"
    using lookup_ticks [of e ep wp ?w1] by (simp add: l)
  have p: "provider e (last (outbound (snd (route e ep (JObj kvs) w)))) =
           provider e (last (outbound w2))"
    using lookup_provider_ticks [where e=e and ep=ep and wp=wp and w=w and n="Suc (ticks w)"]
    by (simp add: route_authorized_outbound [OF assms] l)
  have f: "r = (case provider e (last (outbound w2)) of
        None \<Rightarrow> Inl RequestException | Some r \<Rightarrow> loads e (resp_text r))"
    using lookup_fst [of e ep wp ?w1] by (simp add: l)
  show ?thesis
  proof (cases "provider e (last (outbound w2))")
    case None
    then show ?thesis
      using f by (simp add: p route_authorized [OF assms] l)
  next
    case (Some a)
    then show ?thesis
      using f t by (cases "json_loads e (resp_text a)")
        (simp_all add: p route_authorized [OF assms] l loads_def)
  qed
qed

lemma post_of_route:
  "fst (post e ep body w) =
     (case fst (route e ep body w) of
        Inr d \<Rightarrow> JsonReply 200 (JObj d)
      | Inl (InvalidUsageError err) \<Rightarrow> handle_invalid_usage err
      | Inl _ \<Rightarrow> ServerFault)"
  by (simp add: post_def split: prod.splits sum.splits py_error.splits)

lemma empty_lang_as_absent:
  "get_current_weather e q (JStr []) w = get_current_weather e q JNull w"
  "get_weather_forecast e q days (JStr []) w = get_weather_forecast e q days JNull w"
  "get_weather_history e q dt end_dt (JStr []) w = get_weather_history e q dt end_dt JNull w"
  "get_weather_history e q dt (JStr []) lang w = get_weather_history e q dt JNull lang w"
  by (simp_all add: get_current_weather_def get_weather_forecast_def get_weather_history_def Let_def)

text \<open>
  C1, as amended. For a body that is a JSON object, on every endpoint: a \<open>token\<close> that is
  absent or null is answered with status 400 and "token is required"; a token that is
  present, not null and different from \<open>API_TOKEN\<close> with status 403 and "wrong API token";
  a matching token with a \<open>weather\<close> field that is absent, empty or otherwise false with
  status 400 and "weather params must be provided". The checks are made in this order and
  each of these answers leaves the world as it was: no provider call is made.
\<close>

theorem authorization_checks_in_order:
  "(map_of kvs ''token'' = None \<or> map_of kvs ''token'' = Some JNull \<longrightarrow>
      post e ep (JObj kvs) w =
        (JsonReply 400 (JObj [(''message'', JStr ''token is required'')]), w))
   \<and> (map_of kvs ''token'' = Some tok \<and> tok \<noteq> JNull \<and> tok \<noteq> opt_str (API_TOKEN e) \<longrightarrow>
      post e ep (JObj kvs) w =
        (JsonReply 403 (JObj [(''message'', JStr ''wrong API token'')]), w))
   \<and> (map_of kvs ''token'' = Some tok \<and> tok \<noteq> JNull \<and> tok = opt_str (API_TOKEN e)
       \<and> (map_of kvs ''weather'' = None
            \<or> map_of kvs ''weather'' = Some (JObj [])
            \<or> (\<exists>v. map_of kvs ''weather'' = Some v \<and> \<not> truthy v)) \<longrightarrow>
      post e ep (JObj kvs) w =
        (JsonReply 400 (JObj [(''message'', JStr ''weather params must be provided'')]), w))"
  by (auto simp: post_def route_def authorize_and_validate_request_def dict_get_def
      reply_of_invalid_usage)

theorem authorization_checks_in_order_witness:
  "post (sample_env (Some ''secret'') (Some ''k'') (\<lambda>c. None) (\<lambda>n. 0)) Forecast
        (JObj [(''weather'', JObj [(''q'', JStr ''Kyiv''), (''days'', JInt 3)])]) w0
     = (JsonReply 400 (JObj [(''message'', JStr ''token is required'')]), w0)
   \<and> post (sample_env (Some ''secret'') (Some ''k'') (\<lambda>c. None) (\<lambda>n. 0)) Forecast
        (JObj [(''token'', JStr ''Secret'')]) w0
     = (JsonReply 403 (JObj [(''message'', JStr ''wrong API token'')]), w0)
   \<and> post (sample_env (Some ''secret'') (Some ''k'') (\<lambda>c. None) (\<lambda>n. 0)) Forecast
        (JObj [(''token'', JStr ''secret''), (''weather'', JObj [])]) w0
     = (JsonReply 400 (JObj [(''message'', JStr ''weather params must be provided'')]), w0)"
  using authorization_checks_in_order
      [of "[(''weather'', JObj [(''q'', JStr ''Kyiv''), (''days'', JInt 3)])]"
          "sample_env (Some ''secret'') (Some ''k'') (\<lambda>c. None) (\<lambda>n. 0)" Forecast w0 JNull]
    authorization_checks_in_order
      [of "[(''token'', JStr ''Secret'')]"
          "sample_env (Some ''secret'') (Some ''k'') (\<lambda>c. None) (\<lambda>n. 0)" Forecast w0
          "JStr ''Secret''"]
    authorization_checks_in_order
      [of "[(''token'', JStr ''secret''), (''weather'', JObj [])]"
          "sample_env (Some ''secret'') (Some ''k'') (\<lambda>c. None) (\<lambda>n. 0)" Forecast w0
          "JStr ''secret''"]
  by (simp add: opt_str_def)

text \<open>
  Two bodies outside the amended statement: a \<open>token\<close> field that is present and null,
  with a configured \<open>API_TOKEN\<close>, is answered with 400 and not with 403; a body that is a
  JSON array has no \<open>token\<close> field and ends in a server fault (\<^verbatim>\<open>.get\<close> on a list).
\<close>

theorem null_token_not_403_array_body_not_400:
  "map_of [(''token'', JNull), (''weather'', JObj [(''q'', JStr ''Kyiv'')])] ''token'' \<noteq> None
   \<and> JNull \<noteq> opt_str (Some ''secret'')
   \<and> fst (post (sample_env (Some ''secret'') (Some ''k'') (\<lambda>c. None) (\<lambda>n. 0)) Current
        (JObj [(''token'', JNull), (''weather'', JObj [(''q'', JStr ''Kyiv'')])]) w0)
      = JsonReply 400 (JObj [(''message'', JStr ''token is required'')])
   \<and> fst (post (sample_env (Some ''secret'') (Some ''k'') (\<lambda>c. None) (\<lambda>n. 0)) Current
        (JArr []) w0) = ServerFault"
  by (simp add: opt_str_def post_def route_def authorize_and_validate_request_def dict_get_def
      reply_of_invalid_usage)

text \<open>
  C2, as amended. For an authorized current-weather request with a non-empty \<open>weather\<close>
  object, when the provider answers and its text decodes to \<open>j\<close>, the reply is status 200
  with exactly four fields: \<open>weather\<close> is \<open>j\<close>, \<open>event_start_datetime\<close> and
  \<open>event_finished_datetime\<close> are the renderings of two successive readings of the wall
  clock, \<open>event_duration\<close> is the rendering of their difference. The finish is not before
  the start exactly when the clock did not go back between the two readings.
\<close>

theorem current_weather_success:
  assumes "map_of kvs ''token'' = Some (JStr t)" and "API_TOKEN e = Some t"
    and "map_of kvs ''weather'' = Some (JObj wp)" and "wp \<noteq> []"
    and "provider e (last (outbound (snd (post e Current (JObj kvs) w)))) = Some r"
    and "json_loads e (resp_text r) = Some j"
  shows "fst (post e Current (JObj kvs) w) =
     JsonReply 200 (JObj
       [(''weather'', j),
        (''event_start_datetime'', JStr (isoformat e (clock e (ticks w)))),
        (''event_finished_datetime'', JStr (isoformat e (clock e (Suc (ticks w))))),
        (''event_duration'',
           JStr (timedelta_str e (clock e (Suc (ticks w)) - clock e (ticks w))))])"
proof -
  from assms(5) have "provider e (last (outbound (snd (route e Current (JObj kvs) w)))) = Some r"
    by (simp add: post_outbound)
  then show ?thesis
    using assms(6)
    by (simp add: post_of_route route_authorized_result [OF assms(1-4)])
qed

theorem current_weather_success_witness:
  "fst (post (sample_env (Some ''secret'') (Some ''k'')
               (\<lambda>c. Some \<lparr>resp_status = 200, resp_text = ''{}''\<rparr>) (\<lambda>n. 1500 * int n)) Current
          (JObj [(''token'', JStr ''secret''), (''weather'', JObj [(''q'', JStr ''Kyiv'')])]) w0)
     = JsonReply 200 (JObj
         [(''weather'', JObj []),
          (''event_start_datetime'', JStr ''0''),
          (''event_finished_datetime'', JStr ''1500''),
          (''event_duration'', JStr ''1500'')])"
  using current_weather_success
      [where e = "sample_env (Some ''secret'') (Some ''k'')
               (\<lambda>c. Some \<lparr>resp_status = 200, resp_text = ''{}''\<rparr>) (\<lambda>n. 1500 * int n)"
         and w = w0 and t = "''secret''" and j = "JObj []"
         and r = "\<lparr>resp_status = 200, resp_text = ''{}''\<rparr>"
         and kvs = "[(''token'', JStr ''secret''), (''weather'', JObj [(''q'', JStr ''Kyiv'')])]"
         and wp = "[(''q'', JStr ''Kyiv'')]"]
  by (simp add: w0_def dec.simps)

text \<open>
  A clock that reads 10 and then 5: the finish of the reply is before its start and the
  duration is negative.
\<close>

theorem clock_set_back_finished_before_start:
  "fst (post (sample_env (Some ''secret'') (Some ''k'')
               (\<lambda>c. Some \<lparr>resp_status = 200, resp_text = ''{}''\<rparr>)
               (\<lambda>n. if n = 0 then 10 else 5)) Current
          (JObj [(''token'', JStr ''secret''), (''weather'', JObj [(''q'', JStr ''Kyiv'')])]) w0)
     = JsonReply 200 (JObj
         [(''weather'', JObj []),
          (''event_start_datetime'', JStr ''10''),
          (''event_finished_datetime'', JStr ''5''),
          (''event_duration'', JStr ''-5'')])
   \<and> isoformat (sample_env (Some ''secret'') (Some ''k'')
               (\<lambda>c. Some \<lparr>resp_status = 200, resp_text = ''{}''\<rparr>)
               (\<lambda>n. if n = 0 then 10 else 5)) 5 = ''5''
   \<and> isoformat (sample_env (Some ''secret'') (Some ''k'')
               (\<lambda>c. Some \<lparr>resp_status = 200, resp_text = ''{}''\<rparr>)
               (\<lambda>n. if n = 0 then 10 else 5)) 10 = ''10''
   \<and> (5::int) < 10"
proof -
  have h: "map_of [(''token'', JStr ''secret''), (''weather'', JObj [(''q'', JStr ''Kyiv'')])] ''token''
         = Some (JStr ''secret'')"
     "API_TOKEN (sample_env (Some ''secret'') (Some ''k'')
               (\<lambda>c. Some \<lparr>resp_status = 200, resp_text = ''{}''\<rparr>)
               (\<lambda>n. if n = 0 then 10 else 5)) = Some ''secret''"
     "map_of [(''token'', JStr ''secret''), (''weather'', JObj [(''q'', JStr ''Kyiv'')])] ''weather''
         = Some (JObj [(''q'', JStr ''Kyiv'')])"
     "[(''q'', JStr ''Kyiv'')] \<noteq> []"
    by simp_all
  show ?thesis
    by (simp add: post_of_route route_authorized_result [OF h] w0_def dec.simps)
qed

text \<open>
  C3, as amended. For an authorized forecast or history request with a non-empty \<open>weather\<close>
  object, exactly one provider call is made; it carries the body's \<open>days\<close> (forecast) and
  \<open>dt\<close> (history) values unchanged, whatever they are, and the body's \<open>end_dt\<close> unchanged
  when that value is true in Python's sense and no \<open>end_dt\<close> parameter otherwise. No such
  request ends in an \<open>InvalidUsage\<close> answer.
\<close>

theorem forecast_history_params_forwarded:
  assumes "map_of kvs ''token'' = Some (JStr t)" and "API_TOKEN e = Some t"
    and "map_of kvs ''weather'' = Some (JObj wp)" and "wp \<noteq> []"
  shows "(\<exists>c. outbound (snd (post e Forecast (JObj kvs) w)) = outbound w @ [c]
            \<and> map_of (params c) ''days'' = Some (dict_get wp ''days''))
       \<and> (\<exists>c. outbound (snd (post e History (JObj kvs) w)) = outbound w @ [c]
            \<and> map_of (params c) ''dt'' = Some (dict_get wp ''dt'')
            \<and> map_of (params c) ''end_dt'' =
                (if truthy (dict_get wp ''end_dt'') then Some (dict_get wp ''end_dt'') else None))
       \<and> (\<forall>x. fst (route e Forecast (JObj kvs) w) \<noteq> Inl (InvalidUsageError x))
       \<and> (\<forall>x. fst (route e History (JObj kvs) w) \<noteq> Inl (InvalidUsageError x))"
proof -
  have a: "\<exists>c. outbound (snd (post e Forecast (JObj kvs) w)) = outbound w @ [c]
            \<and> map_of (params c) ''days'' = Some (dict_get wp ''days'')"
    by (simp add: post_outbound route_authorized_outbound [OF assms] lookup_def forecast_world)
  have b: "\<exists>c. outbound (snd (post e History (JObj kvs) w)) = outbound w @ [c]
            \<and> map_of (params c) ''dt'' = Some (dict_get wp ''dt'')
            \<and> map_of (params c) ''end_dt'' =
                (if truthy (dict_get wp ''end_dt'') then Some (dict_get wp ''end_dt'') else None)"
    by (simp add: post_outbound route_authorized_outbound [OF assms] lookup_def history_world)
  have c: "fst (route e ep (JObj kvs) w) \<noteq> Inl (InvalidUsageError x)" for ep x
    by (simp add: route_authorized_result [OF assms] split: sum.splits option.splits)
  from a b c show ?thesis by blast
qed

theorem forecast_history_params_forwarded_witness:
  "(\<exists>c. outbound (snd (post (sample_env (Some ''secret'') (Some ''k'') (\<lambda>c. None) (\<lambda>n. 0)) Forecast
          (JObj [(''token'', JStr ''secret''),
                 (''weather'', JObj [(''q'', JStr ''Kyiv''), (''days'', JInt 99)])]) w0)) = [c]
        \<and> map_of (params c) ''days'' = Some (JInt 99))
   \<and> (\<exists>c. outbound (snd (post (sample_env (Some ''secret'') (Some ''k'') (\<lambda>c. None) (\<lambda>n. 0)) History
          (JObj [(''token'', JStr ''secret''),
                 (''weather'', JObj [(''q'', JStr ''Kyiv''), (''dt'', JStr ''1999-12-31''),
                                     (''end_dt'', JStr ''2031-01-01'')])]) w0)) = [c]
        \<and> map_of (params c) ''dt'' = Some (JStr ''1999-12-31'')
        \<and> map_of (params c) ''end_dt'' = Some (JStr ''2031-01-01''))"
  using forecast_history_params_forwarded
      [where e = "sample_env (Some ''secret'') (Some ''k'') (\<lambda>c. None) (\<lambda>n. 0)"
         and w = w0 and t = "''secret''"
         and kvs = "[(''token'', JStr ''secret''),
                 (''weather'', JObj [(''q'', JStr ''Kyiv''), (''days'', JInt 99)])]"
         and wp = "[(''q'', JStr ''Kyiv''), (''days'', JInt 99)]"]
    forecast_history_params_forwarded
      [where e = "sample_env (Some ''secret'') (Some ''k'') (\<lambda>c. None) (\<lambda>n. 0)"
         and w = w0 and t = "''secret''"
         and kvs = "[(''token'', JStr ''secret''),
                 (''weather'', JObj [(''q'', JStr ''Kyiv''), (''dt'', JStr ''1999-12-31''),
                                     (''end_dt'', JStr ''2031-01-01'')])]"
         and wp = "[(''q'', JStr ''Kyiv''), (''dt'', JStr ''1999-12-31''),
                                     (''end_dt'', JStr ''2031-01-01'')]"]
  by (simp add: w0_def dict_get_def)

text \<open>
  A history request whose \<open>end_dt\<close> is the empty string: the provider call has no
  \<open>end_dt\<close> parameter.
\<close>

theorem empty_end_dt_not_forwarded:
  "dict_get [(''q'', JStr ''Kyiv''), (''dt'', JStr ''2020-01-01''), (''end_dt'', JStr '''')] ''end_dt''
     = JStr ''''
   \<and> map_of (params (last (outbound (snd
        (post (sample_env (Some ''secret'') (Some ''k'') (\<lambda>c. None) (\<lambda>n. 0)) History
          (JObj [(''token'', JStr ''secret''),
                 (''weather'', JObj [(''q'', JStr ''Kyiv''), (''dt'', JStr ''2020-01-01''),
                                     (''end_dt'', JStr '''')])]) w0))))) ''end_dt'' = None"
proof -
  have h: "map_of [(''token'', JStr ''secret''),
                 (''weather'', JObj [(''q'', JStr ''Kyiv''), (''dt'', JStr ''2020-01-01''),
                                     (''end_dt'', JStr '''')])] ''token''
         = Some (JStr ''secret'')"
     "API_TOKEN (sample_env (Some ''secret'') (Some ''k'') (\<lambda>c. None) (\<lambda>n. 0)) = Some ''secret''"
     "map_of [(''token'', JStr ''secret''),
                 (''weather'', JObj [(''q'', JStr ''Kyiv''), (''dt'', JStr ''2020-01-01''),
                                     (''end_dt'', JStr '''')])] ''weather''
         = Some (JObj [(''q'', JStr ''Kyiv''), (''dt'', JStr ''2020-01-01''),
                                     (''end_dt'', JStr '''')])"
     "[(''q'', JStr ''Kyiv''), (''dt'', JStr ''2020-01-01''), (''end_dt'', JStr '''')] \<noteq> []"
    by simp_all
  show ?thesis
    by (simp add: post_outbound route_authorized_outbound [OF h] lookup_def history_world
        dict_get_def)
qed

text \<open>
  C4. Whatever status code the provider's response carries, each lookup returns the decoded
  text of the response, or the decoder's error. For an authorized request with a non-empty
  \<open>weather\<close> object the reply is status 200 with the decoded value under \<open>weather\<close> when
  the text decodes; when it does not, the request ends in the \<open>JSONDecodeError\<close>, which has
  no handler: a server fault, not an \<open>InvalidUsage\<close> answer.
\<close>

theorem provider_body_passed_through:
  "(provider e (last (outbound (snd (get_current_weather e q lang w))))
       = Some \<lparr>resp_status = s, resp_text = tx\<rparr> \<longrightarrow>
     fst (get_current_weather e q lang w) = loads e tx)
   \<and> (provider e (last (outbound (snd (get_weather_forecast e q days lang w))))
       = Some \<lparr>resp_status = s, resp_text = tx\<rparr> \<longrightarrow>
     fst (get_weather_forecast e q days lang w) = loads e tx)
   \<and> (provider e (last (outbound (snd (get_weather_history e q dt end_dt lang w))))
       = Some \<lparr>resp_status = s, resp_text = tx\<rparr> \<longrightarrow>
     fst (get_weather_history e q dt end_dt lang w) = loads e tx)
   \<and> (map_of kvs ''token'' = Some (JStr t) \<and> API_TOKEN e = Some t
       \<and> map_of kvs ''weather'' = Some (JObj wp) \<and> wp \<noteq> []
       \<and> provider e (last (outbound (snd (post e ep (JObj kvs) w))))
           = Some \<lparr>resp_status = s, resp_text = tx\<rparr> \<longrightarrow>
     (case json_loads e tx of
        Some j \<Rightarrow> \<exists>d. fst (post e ep (JObj kvs) w) = JsonReply 200 (JObj d)
                     \<and> map_of d ''weather'' = Some j
      | None \<Rightarrow> fst (route e ep (JObj kvs) w) = Inl JSONDecodeError
                \<and> fst (post e ep (JObj kvs) w) = ServerFault))"
proof -
  have a: "provider e (last (outbound (snd (get_current_weather e q lang w))))
       = Some \<lparr>resp_status = s, resp_text = tx\<rparr> \<longrightarrow>
     fst (get_current_weather e q lang w) = loads e tx"
    by (simp add: lookup_result(1))
  have b: "provider e (last (outbound (snd (get_weather_forecast e q days lang w))))
       = Some \<lparr>resp_status = s, resp_text = tx\<rparr> \<longrightarrow>
     fst (get_weather_forecast e q days lang w) = loads e tx"
    by (simp add: lookup_result(2))
  have c: "provider e (last (outbound (snd (get_weather_history e q dt end_dt lang w))))
       = Some \<lparr>resp_status = s, resp_text = tx\<rparr> \<longrightarrow>
     fst (get_weather_history e q dt end_dt lang w) = loads e tx"
    by (simp add: lookup_result(3))
  have d: "case json_loads e tx of
        Some j \<Rightarrow> \<exists>d. fst (post e ep (JObj kvs) w) = JsonReply 200 (JObj d)
                     \<and> map_of d ''weather'' = Some j
      | None \<Rightarrow> fst (route e ep (JObj kvs) w) = Inl JSONDecodeError
                \<and> fst (post e ep (JObj kvs) w) = ServerFault"
    if h: "map_of kvs ''token'' = Some (JStr t)" "API_TOKEN e = Some t"
       "map_of kvs ''weather'' = Some (JObj wp)" "wp \<noteq> []"
       and p: "provider e (last (outbound (snd (post e ep (JObj kvs) w))))
           = Some \<lparr>resp_status = s, resp_text = tx\<rparr>"
  proof -
    from p have p': "provider e (last (outbound (snd (route e ep (JObj kvs) w))))
           = Some \<lparr>resp_status = s, resp_text = tx\<rparr>"
      by (simp add: post_outbound)
    show ?thesis
      by (cases "json_loads e tx")
        (simp_all add: post_of_route route_authorized_result [OF h] p')
  qed
  from a b c d show ?thesis by blast
qed

theorem provider_body_passed_through_witness:
  "fst (post (sample_env (Some ''secret'') (Some ''k'')
               (\<lambda>c. Some \<lparr>resp_status = 500, resp_text = ''<html>''\<rparr>) (\<lambda>n. 0)) History
          (JObj [(''token'', JStr ''secret''),
                 (''weather'', JObj [(''q'', JStr ''Kyiv''), (''dt'', JStr ''2020-01-01'')])]) w0)
     = ServerFault
   \<and> (\<exists>d. fst (post (sample_env (Some ''secret'') (Some ''k'')
               (\<lambda>c. Some \<lparr>resp_status = 403, resp_text = ''null''\<rparr>) (\<lambda>n. 0)) History
          (JObj [(''token'', JStr ''secret''),
                 (''weather'', JObj [(''q'', JStr ''Kyiv''), (''dt'', JStr ''2020-01-01'')])]) w0)
           = JsonReply 200 (JObj d) \<and> map_of d ''weather'' = Some JNull)
   \<and> fst (get_current_weather (sample_env (Some ''secret'') (Some ''k'')
               (\<lambda>c. Some \<lparr>resp_status = 403, resp_text = ''null''\<rparr>) (\<lambda>n. 0))
          (JStr ''Kyiv'') JNull w0) = Inr JNull
   \<and> fst (get_weather_forecast (sample_env (Some ''secret'') (Some ''k'')
               (\<lambda>c. Some \<lparr>resp_status = 403, resp_text = ''null''\<rparr>) (\<lambda>n. 0))
          (JStr ''Kyiv'') (JInt 3) JNull w0) = Inr JNull
   \<and> fst (get_weather_history (sample_env (Some ''secret'') (Some ''k'')
               (\<lambda>c. Some \<lparr>resp_status = 403, resp_text = ''null''\<rparr>) (\<lambda>n. 0))
          (JStr ''Kyiv'') (JStr ''2020-01-01'') JNull JNull w0) = Inr JNull"
  using provider_body_passed_through
      [where e = "sample_env (Some ''secret'') (Some ''k'')
               (\<lambda>c. Some \<lparr>resp_status = 500, resp_text = ''<html>''\<rparr>) (\<lambda>n. 0)"
         and ep = History and w = w0 and s = "500" and tx = "''<html>''" and t = "''secret''"
         and kvs = "[(''token'', JStr ''secret''),
                 (''weather'', JObj [(''q'', JStr ''Kyiv''), (''dt'', JStr ''2020-01-01'')])]"
         and wp = "[(''q'', JStr ''Kyiv''), (''dt'', JStr ''2020-01-01'')]"]
    provider_body_passed_through
      [where e = "sample_env (Some ''secret'') (Some ''k'')
               (\<lambda>c. Some \<lparr>resp_status = 403, resp_text = ''null''\<rparr>) (\<lambda>n. 0)"
         and ep = History and w = w0 and s = "403" and tx = "''null''" and t = "''secret''"
         and q = "JStr ''Kyiv''" and lang = JNull and days = "JInt 3"
         and dt = "JStr ''2020-01-01''" and end_dt = JNull
         and kvs = "[(''token'', JStr ''secret''),
                 (''weather'', JObj [(''q'', JStr ''Kyiv''), (''dt'', JStr ''2020-01-01'')])]"
         and wp = "[(''q'', JStr ''Kyiv''), (''dt'', JStr ''2020-01-01'')]"]
  by (simp add: loads_def)

text \<open>
  C8, as amended. Each lookup adds exactly one call to those made so far: a GET of
  \<^verbatim>\<open>http://api.weatherapi.com/v1/\<close> followed by \<^verbatim>\<open>current.json\<close>, \<^verbatim>\<open>forecast.json\<close> or
  \<^verbatim>\<open>history.json\<close>, with the configured key as the parameter \<open>key\<close>. The scheme of the
  URL is http.
\<close>

theorem one_get_per_lookup:
  "(\<exists>c. outbound (snd (get_current_weather e q lang w)) = outbound w @ [c]
        \<and> http_method c = ''GET'' \<and> url c = ''http://api.weatherapi.com/v1/current.json''
        \<and> map_of (params c) ''key'' = Some (opt_str (WEATHER_API_KEY e)))
   \<and> (\<exists>c. outbound (snd (get_weather_forecast e q days lang w)) = outbound w @ [c]
        \<and> http_method c = ''GET'' \<and> url c = ''http://api.weatherapi.com/v1/forecast.json''
        \<and> map_of (params c) ''key'' = Some (opt_str (WEATHER_API_KEY e)))
   \<and> (\<exists>c. outbound (snd (get_weather_history e q dt end_dt lang w)) = outbound w @ [c]
        \<and> http_method c = ''GET'' \<and> url c = ''http://api.weatherapi.com/v1/history.json''
        \<and> map_of (params c) ''key'' = Some (opt_str (WEATHER_API_KEY e)))"
  by (simp add: current_world forecast_world history_world)

text \<open>The URL of a lookup does not start with \<^verbatim>\<open>https://\<close>.\<close>

theorem lookup_is_not_https:
  "url (last (outbound (snd (get_current_weather
          (sample_env (Some ''secret'') (Some ''k'') (\<lambda>c. None) (\<lambda>n. 0))
          (JStr ''Paris'') JNull w0)))) = ''http://api.weatherapi.com/v1/current.json''
   \<and> \<not> prefix ''https://''
       (url (last (outbound (snd (get_current_weather
          (sample_env (Some ''secret'') (Some ''k'') (\<lambda>c. None) (\<lambda>n. 0))
          (JStr ''Paris'') JNull w0)))))"
  by (simp add: current_world)

text \<open>
  C9. A body whose \<open>token\<close> field is JSON null is answered with status 400 and the message
  "token is required", for every configuration (also with \<open>API_TOKEN\<close> unset), every
  endpoint and without any provider call or clock reading; it is the answer the same body
  gets with the \<open>token\<close> field removed.
\<close>

theorem null_token_is_missing_token:
  assumes "map_of kvs ''token'' = Some JNull"
  shows "post e ep (JObj kvs) w =
           (JsonReply 400 (JObj [(''message'', JStr ''token is required'')]), w)
         \<and> post e ep (JObj (AList.delete ''token'' kvs)) w = post e ep (JObj kvs) w"
proof -
  have a: "post e ep (JObj kvs) w =
           (JsonReply 400 (JObj [(''message'', JStr ''token is required'')]), w)"
    using assms
    by (simp add: post_def route_def authorize_and_validate_request_def dict_get_def
        reply_of_invalid_usage)
  have "map_of (AList.delete ''token'' kvs) ''token'' = None"
    by (simp add: delete_conv')
  then have b: "post e ep (JObj (AList.delete ''token'' kvs)) w =
           (JsonReply 400 (JObj [(''message'', JStr ''token is required'')]), w)"
    by (simp add: post_def route_def authorize_and_validate_request_def dict_get_def
        reply_of_invalid_usage)
  from a b show ?thesis by simp
qed

theorem null_token_is_missing_token_witness:
  "post (sample_env None None (\<lambda>c. None) (\<lambda>n. 0)) Current
        (JObj [(''token'', JNull), (''weather'', JObj [(''q'', JStr ''Paris'')])]) w0 =
     (JsonReply 400 (JObj [(''message'', JStr ''token is required'')]), w0)"
  using null_token_is_missing_token
    [of "[(''token'', JNull), (''weather'', JObj [(''q'', JStr ''Paris'')])]"
        "sample_env None None (\<lambda>c. None) (\<lambda>n. 0)" Current w0]
  by simp

text \<open>
  C10. In each lookup the call's parameters bind \<open>lang\<close> exactly when the given value is
  true in Python's sense, and then to that value; the same holds for \<open>end_dt\<close> in the
  history lookup. A lookup given the empty string is the lookup given \<^verbatim>\<open>None\<close>.
\<close>

theorem optional_params_iff_truthy:
  "map_of (params (last (outbound (snd (get_current_weather e q lang w))))) ''lang''
     = (if truthy lang then Some lang else None)
   \<and> map_of (params (last (outbound (snd (get_weather_forecast e q days lang w))))) ''lang''
     = (if truthy lang then Some lang else None)
   \<and> map_of (params (last (outbound (snd (get_weather_history e q dt end_dt lang w))))) ''lang''
     = (if truthy lang then Some lang else None)
   \<and> map_of (params (last (outbound (snd (get_weather_history e q dt end_dt lang w))))) ''end_dt''
     = (if truthy end_dt then Some end_dt else None)
   \<and> get_current_weather e q (JStr []) w = get_current_weather e q JNull w
   \<and> get_weather_forecast e q days (JStr []) w = get_weather_forecast e q days JNull w
   \<and> get_weather_history e q dt end_dt (JStr []) w = get_weather_history e q dt end_dt JNull w
   \<and> get_weather_history e q dt (JStr []) lang w = get_weather_history e q dt JNull lang w"
  by (simp add: current_world forecast_world history_world empty_lang_as_absent)

section \<open>Properties of the dataset builder\<close>

lemma chars_distinct [simp]:
  "LF \<noteq> CR" "CR \<noteq> LF" "LF \<noteq> QUOTE" "QUOTE \<noteq> LF" "LF \<noteq> COMMA" "COMMA \<noteq> LF"
  "CR \<noteq> QUOTE" "QUOTE \<noteq> CR" "CR \<noteq> COMMA" "COMMA \<noteq> CR" "QUOTE \<noteq> COMMA" "COMMA \<noteq> QUOTE"
  "LF \<noteq> CHR '' ''" "CR \<noteq> CHR '' ''"
  by (simp_all add: LF_def CR_def QUOTE_def COMMA_def)

lemma needs_quote_simps [simp]:
  "needs_quote [] = False"
  "needs_quote (c # s) = (c = COMMA \<or> c = QUOTE \<or> c = CR \<or> c = LF \<or> needs_quote s)"
  by (auto simp: needs_quote_def)

declare parse_process_char.simps [simp del]

lemma step_in_field:
  "parse_process_char \<lparr>state = IN_FIELD, cur_field = a, cur_fields = fs, rows = rs\<rparr> c =
     (if c = LF then \<lparr>state = START_RECORD, cur_field = [], cur_fields = [], rows = rs @ [fs @ [a]]\<rparr>
      else if c = CR then \<lparr>state = EAT_CRNL, cur_field = [], cur_fields = [], rows = rs @ [fs @ [a]]\<rparr>
      else if c = COMMA then \<lparr>state = START_FIELD, cur_field = [], cur_fields = fs @ [a], rows = rs\<rparr>
      else \<lparr>state = IN_FIELD, cur_field = a @ [c], cur_fields = fs, rows = rs\<rparr>)"
  by (simp add: parse_process_char.simps end_record_def save_field_def add_char_def)

lemma step_start:
  assumes "st = START_RECORD \<or> st = START_FIELD" "c \<noteq> LF" "c \<noteq> CR"
  shows "parse_process_char \<lparr>state = st, cur_field = [], cur_fields = fs, rows = rs\<rparr> c =
     (if c = QUOTE then \<lparr>state = IN_QUOTED_FIELD, cur_field = [], cur_fields = fs, rows = rs\<rparr>
      else if c = COMMA then \<lparr>state = START_FIELD, cur_field = [], cur_fields = fs @ [[]], rows = rs\<rparr>
      else \<lparr>state = IN_FIELD, cur_field = [c], cur_fields = fs, rows = rs\<rparr>)"
  using assms
  by (auto simp: parse_process_char.simps start_record_def start_field_def save_field_def
      add_char_def)

lemma step_start_field_newline:
  "parse_process_char \<lparr>state = START_FIELD, cur_field = [], cur_fields = fs, rows = rs\<rparr> CR =
     \<lparr>state = EAT_CRNL, cur_field = [], cur_fields = [], rows = rs @ [fs @ [[]]]\<rparr>"
  by (simp add: parse_process_char.simps start_field_def end_record_def save_field_def)

lemma step_eat_lf:
  "parse_process_char \<lparr>state = EAT_CRNL, cur_field = a, cur_fields = fs, rows = rs\<rparr> LF =
     \<lparr>state = START_RECORD, cur_field = a, cur_fields = fs, rows = rs\<rparr>"
  by (simp add: parse_process_char.simps)

lemma step_in_quoted:
  "parse_process_char \<lparr>state = IN_QUOTED_FIELD, cur_field = a, cur_fields = fs, rows = rs\<rparr> c =
     (if c = QUOTE then \<lparr>state = QUOTE_IN_QUOTED_FIELD, cur_field = a, cur_fields = fs, rows = rs\<rparr>
      else \<lparr>state = IN_QUOTED_FIELD, cur_field = a @ [c], cur_fields = fs, rows = rs\<rparr>)"
  by (simp add: parse_process_char.simps add_char_def)

lemma step_quote_in_quoted:
  "parse_process_char \<lparr>state = QUOTE_IN_QUOTED_FIELD, cur_field = a, cur_fields = fs, rows = rs\<rparr> c =
     (if c = QUOTE then \<lparr>state = IN_QUOTED_FIELD, cur_field = a @ [c], cur_fields = fs, rows = rs\<rparr>
      else if c = COMMA then \<lparr>state = START_FIELD, cur_field = [], cur_fields = fs @ [a], rows = rs\<rparr>
      else if c = LF then \<lparr>state = START_RECORD, cur_field = [], cur_fields = [], rows = rs @ [fs @ [a]]\<rparr>
      else if c = CR then \<lparr>state = EAT_CRNL, cur_field = [], cur_fields = [], rows = rs @ [fs @ [a]]\<rparr>
      else \<lparr>state = IN_FIELD, cur_field = a @ [c], cur_fields = fs, rows = rs\<rparr>)"
  by (simp add: parse_process_char.simps end_record_def save_field_def add_char_def)

lemma unquoted_body:
  "\<not> needs_quote s \<Longrightarrow>
   foldl parse_process_char \<lparr>state = IN_FIELD, cur_field = a, cur_fields = fs, rows = rs\<rparr> s =
     \<lparr>state = IN_FIELD, cur_field = a @ s, cur_fields = fs, rows = rs\<rparr>"
  by (induction s arbitrary: a) (simp_all add: step_in_field)

lemma quoted_body:
  "foldl parse_process_char \<lparr>state = IN_QUOTED_FIELD, cur_field = a, cur_fields = fs, rows = rs\<rparr>
     (concat (map (\<lambda>c. if c = QUOTE then [QUOTE, QUOTE] else [c]) s)) =
     \<lparr>state = IN_QUOTED_FIELD, cur_field = a @ s, cur_fields = fs, rows = rs\<rparr>"
  by (induction s arbitrary: a) (simp_all add: step_in_quoted step_quote_in_quoted)

text \<open>A written field followed by one more character \<open>d\<close>, read from the start of a field.\<close>

lemma read_field:
  assumes "st = START_RECORD \<or> st = START_FIELD" "s \<noteq> [] \<or> d \<noteq> CR"
  shows "foldl parse_process_char \<lparr>state = st, cur_field = [], cur_fields = fs, rows = rs\<rparr>
           (quote_field s @ [d]) =
         parse_process_char
           \<lparr>state = (if needs_quote s then QUOTE_IN_QUOTED_FIELD else IN_FIELD),
            cur_field = s, cur_fields = fs, rows = rs\<rparr> d
         \<or> s = [] \<and> foldl parse_process_char \<lparr>state = st, cur_field = [], cur_fields = fs, rows = rs\<rparr>
           (quote_field s @ [d]) =
           parse_process_char \<lparr>state = st, cur_field = [], cur_fields = fs, rows = rs\<rparr> d"
proof (cases "needs_quote s")
  case True
  then show ?thesis
    using assms(1)
    by (simp add: quote_field_def step_start quoted_body step_in_quoted)
next
  case False
  show ?thesis
  proof (cases s)
    case Nil
    then show ?thesis by (simp add: quote_field_def)
  next
    case (Cons c cs)
    with False have "c \<noteq> LF" "c \<noteq> CR" "c \<noteq> QUOTE" "c \<noteq> COMMA" "\<not> needs_quote cs"
      by simp_all
    then show ?thesis
      using assms(1) False Cons
      by (simp add: quote_field_def step_start unquoted_body)
  qed
qed

lemma read_field_comma:
  assumes "st = START_RECORD \<or> st = START_FIELD"
  shows "foldl parse_process_char \<lparr>state = st, cur_field = [], cur_fields = fs, rows = rs\<rparr>
           (quote_field s @ [COMMA]) =
         \<lparr>state = START_FIELD, cur_field = [], cur_fields = fs @ [s], rows = rs\<rparr>"
  using read_field [OF assms, of s COMMA fs rs] assms
  by (auto simp: step_in_field step_quote_in_quoted step_start)

lemma read_field_crlf:
  "foldl parse_process_char \<lparr>state = START_FIELD, cur_field = [], cur_fields = fs, rows = rs\<rparr>
           (quote_field s @ [CR, LF]) =
         \<lparr>state = START_RECORD, cur_field = [], cur_fields = [], rows = rs @ [fs @ [s]]\<rparr>"
proof (cases "s = []")
  case True
  then show ?thesis
    by (simp add: quote_field_def step_start_field_newline step_eat_lf)
next
  case False
  have "foldl parse_process_char \<lparr>state = START_FIELD, cur_field = [], cur_fields = fs, rows = rs\<rparr>
           (quote_field s @ [CR]) =
        \<lparr>state = EAT_CRNL, cur_field = [], cur_fields = [], rows = rs @ [fs @ [s]]\<rparr>"
    using read_field [of START_FIELD s CR fs rs] False
    by (auto simp: step_in_field step_quote_in_quoted)
  then have "foldl parse_process_char \<lparr>state = START_FIELD, cur_field = [], cur_fields = fs, rows = rs\<rparr>
           ((quote_field s @ [CR]) @ [LF]) =
        \<lparr>state = START_RECORD, cur_field = [], cur_fields = [], rows = rs @ [fs @ [s]]\<rparr>"
    by (subst foldl_append) (simp add: step_eat_lf)
  then show ?thesis by simp
qed

lemma read_row:
  "foldl parse_process_char \<lparr>state = START_RECORD, cur_field = [], cur_fields = [], rows = rs\<rparr>
     (writerow [k, v]) =
   \<lparr>state = START_RECORD, cur_field = [], cur_fields = [], rows = rs @ [[k, v]]\<rparr>"
proof -
  have a: "foldl parse_process_char
             \<lparr>state = START_RECORD, cur_field = [], cur_fields = [], rows = rs\<rparr>
             (quote_field k @ [COMMA]) =
           \<lparr>state = START_FIELD, cur_field = [], cur_fields = [] @ [k], rows = rs\<rparr>"
    by (rule read_field_comma) simp
  have b: "foldl parse_process_char
             \<lparr>state = START_FIELD, cur_field = [], cur_fields = [] @ [k], rows = rs\<rparr>
             (quote_field v @ [CR, LF]) =
           \<lparr>state = START_RECORD, cur_field = [], cur_fields = [], rows = rs @ [([] @ [k]) @ [v]]\<rparr>"
    by (rule read_field_crlf)
  have "foldl parse_process_char
             \<lparr>state = START_RECORD, cur_field = [], cur_fields = [], rows = rs\<rparr>
             ((quote_field k @ [COMMA]) @ (quote_field v @ [CR, LF])) =
           \<lparr>state = START_RECORD, cur_field = [], cur_fields = [], rows = rs @ [([] @ [k]) @ [v]]\<rparr>"
    by (subst foldl_append) (simp only: a b)
  then show ?thesis
    by (simp add: writerow_def)
qed

lemma read_rows:
  "foldl parse_process_char \<lparr>state = START_RECORD, cur_field = [], cur_fields = [], rows = rs\<rparr>
     (writerows recs) =
   \<lparr>state = START_RECORD, cur_field = [], cur_fields = [],
    rows = rs @ map (\<lambda>(k, v). [k, v]) recs\<rparr>"
proof (induction recs arbitrary: rs)
  case Nil
  then show ?case by (simp add: writerows_def)
next
  case (Cons r recs)
  obtain k v where r: "r = (k, v)" by (cases r)
  have "writerows (r # recs) = writerow [k, v] @ writerows recs"
    by (simp add: writerows_def r)
  then show ?case
    by (simp add: read_row Cons.IH r)
qed

lemma reader_inverts_writer:
  "csv_reader (writerow [h1, h2] @ writerows recs) = [h1, h2] # map (\<lambda>(k, v). [k, v]) recs"
  by (simp add: csv_reader_def read_row read_rows finish_def)




lemma files_loop_Inr:
  "files_loop fs acc = Inr r \<Longrightarrow> \<exists>new. r = acc @ new \<and> list_all2 is_record_of fs new"
proof (induction fs arbitrary: acc)
  case Nil
  then show ?case by simp
next
  case (Cons x fs)
  obtain fname f where x: "x = (fname, f)" by (cases x)
  from Cons.prems obtain s where f: "f = Inr s"
    by (cases f) (simp_all add: x open_read_def split: prod.splits)
  let ?rec = "(fst (splitext fname), re_sub_newline (universal_newlines s))"
  from Cons.prems have "files_loop fs (acc @ [?rec]) = Inr r"
    by (simp add: x f open_read_def split: prod.splits)
  from Cons.IH [OF this] obtain new where "r = (acc @ [?rec]) @ new" "list_all2 is_record_of fs new"
    by blast
  then have "r = acc @ (?rec # new) \<and> list_all2 is_record_of (x # fs) (?rec # new)"
    by (simp add: x f is_record_of_def)
  then show ?case by blast
qed

lemma files_loop_total:
  "\<forall>x\<in>set fs. \<not> isl (snd x) \<Longrightarrow> \<exists>r. files_loop fs acc = Inr r"
proof (induction fs arbitrary: acc)
  case Nil
  then show ?case by simp
next
  case (Cons x fs)
  obtain fname f where x: "x = (fname, f)" by (cases x)
  from Cons.prems obtain s where f: "f = Inr s"
    by (cases f) (simp_all add: x)
  from Cons.prems have "\<forall>x\<in>set fs. \<not> isl (snd x)" by simp
  from Cons.IH [OF this] show ?case
    by (simp add: x f open_read_def split: prod.splits)
qed

lemma walk_loop_Inr:
  "walk_loop ws acc = Inr r \<Longrightarrow>
   \<exists>new. r = acc @ new
     \<and> list_all2 is_record_of (concat (map (\<lambda>(subdir, dirs, files). files) ws)) new"
proof (induction ws arbitrary: acc)
  case Nil
  then show ?case by simp
next
  case (Cons w ws)
  obtain subdir dirs files where w: "w = (subdir, dirs, files)" by (cases w)
  from Cons.prems obtain acc' where a: "files_loop files acc = Inr acc'"
    and b: "walk_loop ws acc' = Inr r"
    by (cases "files_loop files acc") (simp_all add: w)
  from files_loop_Inr [OF a] obtain n1 where n1: "acc' = acc @ n1" "list_all2 is_record_of files n1"
    by blast
  from Cons.IH [OF b] obtain n2 where n2: "r = acc' @ n2"
    "list_all2 is_record_of (concat (map (\<lambda>(subdir, dirs, files). files) ws)) n2"
    by blast
  have "r = acc @ (n1 @ n2)" using n1 n2 by simp
  moreover have "list_all2 is_record_of (concat (map (\<lambda>(subdir, dirs, files). files) (w # ws))) (n1 @ n2)"
    using n1 n2 by (simp add: w list_all2_appendI)
  ultimately show ?case by blast
qed

lemma walk_loop_total:
  "\<forall>x\<in>set (concat (map (\<lambda>(subdir, dirs, files). files) ws)). \<not> isl (snd x) \<Longrightarrow>
   \<exists>r. walk_loop ws acc = Inr r"
proof (induction ws arbitrary: acc)
  case Nil
  then show ?case by simp
next
  case (Cons w ws)
  obtain subdir dirs files where w: "w = (subdir, dirs, files)" by (cases w)
  from Cons.prems have "\<forall>x\<in>set files. \<not> isl (snd x)" by (simp add: w)
  from files_loop_total [OF this] obtain acc' where a: "files_loop files acc = Inr acc'"
    by blast
  from Cons.prems have "\<forall>x\<in>set (concat (map (\<lambda>(subdir, dirs, files). files) ws)). \<not> isl (snd x)"
    by (simp add: w)
  from Cons.IH [OF this] show ?case
    by (simp add: w a)
qed

text \<open>
  C5, as amended. When \<open>read_data_from_files\<close> returns, its records correspond one to one,
  in the order of the walk, to the files of the tree: the first component is the root that
  \<open>splitext\<close> gives for the file's name, the second is the file's text with every line
  ending (\<^verbatim>\<open>\r\n\<close>, \<^verbatim>\<open>\r\<close> or \<^verbatim>\<open>\n\<close>) replaced by one space. Files with the same base
  name each have their record. It returns whenever every file of the tree can be read.
\<close>

theorem one_record_per_file:
  "(read_data_from_files root_folder t = Inr recs \<longrightarrow>
      list_all2 is_record_of (walk_files root_folder t) recs)
   \<and> ((\<forall>x\<in>set (walk_files root_folder t). \<not> isl (snd x)) \<longrightarrow>
      (\<exists>r. read_data_from_files root_folder t = Inr r))"
proof -
  have a: "list_all2 is_record_of (walk_files root_folder t) recs"
    if "read_data_from_files root_folder t = Inr recs"
    using walk_loop_Inr [of "os_walk root_folder t" "[]" recs] that
    by (simp add: read_data_from_files_def walk_files_def)
  have b: "\<exists>r. read_data_from_files root_folder t = Inr r"
    if "\<forall>x\<in>set (walk_files root_folder t). \<not> isl (snd x)"
    using walk_loop_total [of "os_walk root_folder t" "[]"] that
    by (simp add: read_data_from_files_def walk_files_def)
  from a b show ?thesis by blast
qed

lemma read_sample_tree:
  "read_data_from_files ''row_data'' sample_tree = Inr sample_records"
  by code_simp

lemma walk_sample_tree:
  "walk_files ''row_data'' sample_tree =
     [(''a.txt'', Inr (''hello'' @ [LF] @ ''world'')),
      (''b.txt'', Inr (''say '' @ [QUOTE] @ ''hi'' @ [QUOTE] @ '', ok'')),
      (''a.md'', Inr ''y'')]"
  by (simp add: walk_files_def sample_tree_def)

theorem one_record_per_file_witness:
  "read_data_from_files ''row_data'' sample_tree = Inr sample_records
   \<and> list_all2 is_record_of (walk_files ''row_data'' sample_tree) sample_records
   \<and> map fst sample_records = [''a'', ''b'', ''a'']"
  using one_record_per_file [of "''row_data''" sample_tree sample_records]
  by (simp add: read_sample_tree) (simp add: sample_records_def)

text \<open>
  A file holding \<^verbatim>\<open>a\r\nb\<close>: its record text is \<^verbatim>\<open>a b\<close>, which is neither the content with
  every \<^verbatim>\<open>\n\<close> replaced by a space nor the content with every \<^verbatim>\<open>\r\<close> and \<^verbatim>\<open>\n\<close>
  replaced by a space.
\<close>

theorem crlf_becomes_one_space:
  "read_data_from_files ''row_data'' (Dir [(''a.txt'', Inr (''a'' @ [CR, LF] @ ''b''))] [])
     = Inr [(''a'', ''a b'')]
   \<and> re_sub_newline (''a'' @ [CR, LF] @ ''b'') = ''a'' @ [CR] @ '' b''
   \<and> ''a b'' \<noteq> ''a'' @ [CR] @ '' b''
   \<and> ''a b'' \<noteq> ''a  b''"
  by code_simp

lemma dirname_dataset_path: "dirname ''datasets/dataset.csv'' = ''datasets''"
  by code_simp

lemma create_csv_dataset_eq:
  "create_csv_dataset recs fs =
     (if ''datasets'' \<in> dom (fs_files fs) then Inl FileExistsError
      else if ''datasets/dataset.csv'' \<in> fs_dirs fs then Inl IsADirectoryError
      else Inr \<lparr>fs_dirs = insert ''datasets'' (fs_dirs fs),
                fs_files = (fs_files fs)(''datasets/dataset.csv'' \<mapsto> dataset_text recs)\<rparr>)"
  by (simp add: create_csv_dataset_def dirname_dataset_path makedirs_def open_w_def
      file_write_def dataset_text_def)

lemma read_total_length:
  "read_data_from_files root_folder t = Inr recs \<Longrightarrow>
   length recs = length (walk_files root_folder t)"
  using walk_loop_Inr [of "os_walk root_folder t" "[]" recs]
  by (auto simp: read_data_from_files_def walk_files_def dest: list_all2_lengthD)






lemma main_eq:
  "main t fs = Inr fs1 \<Longrightarrow>
   \<exists>recs. read_data_from_files ''row_data'' t = Inr recs
      \<and> ''datasets'' \<notin> dom (fs_files fs) \<and> ''datasets/dataset.csv'' \<notin> fs_dirs fs
      \<and> fs1 = \<lparr>fs_dirs = insert ''datasets'' (fs_dirs fs),
                fs_files = (fs_files fs)(''datasets/dataset.csv'' \<mapsto> dataset_text recs)\<rparr>"
  by (cases "read_data_from_files ''row_data'' t")
    (auto simp: main_def create_csv_dataset_eq split: if_splits)

lemma main_again:
  assumes "main t fs = Inr fs1"
  shows "main t fs1 = Inr fs1"
proof -
  from main_eq [OF assms] obtain recs where
    r: "read_data_from_files ''row_data'' t = Inr recs"
    and d: "''datasets'' \<notin> dom (fs_files fs)" "''datasets/dataset.csv'' \<notin> fs_dirs fs"
    and f: "fs1 = \<lparr>fs_dirs = insert ''datasets'' (fs_dirs fs),
                fs_files = (fs_files fs)(''datasets/dataset.csv'' \<mapsto> dataset_text recs)\<rparr>"
    by blast
  show ?thesis
    using d by (simp add: main_def r create_csv_dataset_eq f insert_absorb2)
qed

lemma runs_again:
  "main t fs1 = Inr fs1 \<Longrightarrow> runs n t fs1 = Inr fs1"
  by (induction n) simp_all

lemma create_sample: "create_csv_dataset sample_records fs_old = Inr fs_new"
  by (simp add: create_csv_dataset_eq fs_old_def fs_new_def)










text \<open>
  C7. If a run of the builder succeeds, any number \<open>n > 0\<close> of runs in a row on the same
  input leaves the output directory as the first run did, whatever the output file held
  before: the file reads back as \<open>N + 1\<close> rows for the \<open>N\<close> files of the tree.
\<close>

theorem rerun_overwrites:
  assumes "main t fs = Inr fs1" and "0 < n"
  shows "runs n t fs = Inr fs1
         \<and> (\<exists>out. fs_files fs1 ''datasets/dataset.csv'' = Some out
               \<and> length (csv_reader out) = length (walk_files ''row_data'' t) + 1)"
proof -
  from assms(2) obtain m where n: "n = Suc m" by (cases n) simp_all
  have "runs n t fs = Inr fs1"
    by (simp add: n assms(1) runs_again [OF main_again [OF assms(1)]])
  moreover
  from main_eq [OF assms(1)] obtain recs where
    r: "read_data_from_files ''row_data'' t = Inr recs"
    and f: "fs1 = \<lparr>fs_dirs = insert ''datasets'' (fs_dirs fs),
                fs_files = (fs_files fs)(''datasets/dataset.csv'' \<mapsto> dataset_text recs)\<rparr>"
    by blast
  have "length (csv_reader (dataset_text recs)) = length (walk_files ''row_data'' t) + 1"
    by (simp add: dataset_text_def reader_inverts_writer read_total_length [OF r])
  then have "\<exists>out. fs_files fs1 ''datasets/dataset.csv'' = Some out
               \<and> length (csv_reader out) = length (walk_files ''row_data'' t) + 1"
    by (simp add: f)
  ultimately show ?thesis by blast
qed

theorem rerun_overwrites_witness:
  "runs 3 sample_tree fs_old = Inr fs_new
   \<and> (\<exists>out. fs_files fs_new ''datasets/dataset.csv'' = Some out \<and> length (csv_reader out) = 4)"
proof -
  have m: "main sample_tree fs_old = Inr fs_new"
    by (simp add: main_def read_sample_tree create_sample)
  have "length (walk_files ''row_data'' sample_tree) + 1 = 4"
    by (simp add: walk_sample_tree)
  with rerun_overwrites [OF m, of 3] show ?thesis
    by simp
qed

end
